theory Spec2Isabelle
  imports Complex_Main
begin

section \<open>Conventions\<close>

text \<open>
  JavaScript numbers are modelled as mathematical reals: the properties below are about
  thresholds, signs and accumulated sums, and are stated for exact arithmetic. The one
  exception is replay playback, where the times at which frames appear depend on how the
  accumulator rounds: there every arithmetic result is rounded to the nearest double. Object
  property keys are strings, so the entity identifiers \<^verbatim>\<open>'ball'\<close>, \<^verbatim>\<open>1\<close> and
  \<^verbatim>\<open>2\<close> are the keys \<open>''ball''\<close>, \<open>''1''\<close> and \<open>''2''\<close>.
\<close>

section \<open>physicsWorker.js: the simulation driver\<close>

definition WORLD_WIDTH :: real where
  "WORLD_WIDTH = 10"

definition WORLD_HEIGHT :: real where
  "WORLD_HEIGHT = 5"

definition PLAYER_RADIUS :: real where
  "PLAYER_RADIUS = 0.3"

text \<open>
  The part of a Box2D body that the worker reads and writes: position, angle, linear and
  angular velocity, and the mass that \<^verbatim>\<open>GetMass\<close> returns.
\<close>

record body =
  pos_x :: real
  pos_y :: real
  angle :: real
  vel_x :: real
  vel_y :: real
  ang_vel :: real
  mass :: real

text \<open>
  \<^verbatim>\<open>setupWorld\<close> stores exactly three dynamic bodies in \<^verbatim>\<open>bodies\<close>, under the keys
  \<^verbatim>\<open>ball\<close>, \<^verbatim>\<open>1\<close> and \<^verbatim>\<open>2\<close>, and nothing removes one.
\<close>

record world =
  ball :: body
  player1 :: body
  player2 :: body

text \<open>The lookup \<^verbatim>\<open>bodies[id]\<close>: \<open>None\<close> is JavaScript's \<^verbatim>\<open>undefined\<close>.\<close>

definition bodies :: "world \<Rightarrow> string \<Rightarrow> body option" where
  "bodies w k =
     (if k = ''ball'' then Some (ball w)
      else if k = ''1'' then Some (player1 w)
      else if k = ''2'' then Some (player2 w)
      else None)"

text \<open>Writing back a body that was looked up under an existing key.\<close>

definition set_body :: "world \<Rightarrow> string \<Rightarrow> body \<Rightarrow> world" where
  "set_body w k b =
     (if k = ''ball'' then w\<lparr>ball := b\<rparr>
      else if k = ''1'' then w\<lparr>player1 := b\<rparr>
      else if k = ''2'' then w\<lparr>player2 := b\<rparr>
      else w)"

text \<open>Box2D's \<^verbatim>\<open>SetTransform(position, angle)\<close> and \<^verbatim>\<open>SetLinearVelocity\<close>.\<close>

definition SetTransform :: "body \<Rightarrow> real \<times> real \<Rightarrow> real \<Rightarrow> body" where
  "SetTransform b p a = b\<lparr>pos_x := fst p, pos_y := snd p, angle := a\<rparr>"

definition SetLinearVelocity :: "body \<Rightarrow> real \<times> real \<Rightarrow> body" where
  "SetLinearVelocity b v = b\<lparr>vel_x := fst v, vel_y := snd v\<rparr>"

definition SetAngularVelocity :: "body \<Rightarrow> real \<Rightarrow> body" where
  "SetAngularVelocity b om = b\<lparr>ang_vel := om\<rparr>"

text \<open>
  Box2D's \<^verbatim>\<open>ApplyLinearImpulse(impulse, GetWorldCenter(), true)\<close> on a dynamic body: the
  linear velocity grows by the impulse times the inverse mass; an impulse through the
  centre of mass leaves the angular velocity alone.
\<close>

definition ApplyLinearImpulse :: "body \<Rightarrow> real \<times> real \<Rightarrow> body" where
  "ApplyLinearImpulse b imp =
     b\<lparr>vel_x := vel_x b + fst imp / mass b, vel_y := vel_y b + snd imp / mass b\<rparr>"

definition resetPositions :: "world \<Rightarrow> world" where
  "resetPositions w =
     (let b = SetAngularVelocity
                (SetLinearVelocity (SetTransform (ball w) (WORLD_WIDTH / 2, WORLD_HEIGHT - 1) 0) (0, 0)) 0;
          p1 = SetLinearVelocity (SetTransform (player1 w) (2, 1) 0) (0, 0);
          p2 = SetLinearVelocity (SetTransform (player2 w) (WORLD_WIDTH - 2, 1) 0) (0, 0)
      in w\<lparr>ball := b, player1 := p1, player2 := p2\<rparr>)"

text \<open>One entry of a state snapshot: \<^verbatim>\<open>{x, y, vx, vy}\<close>.\<close>

record entry =
  e_x :: real
  e_y :: real
  e_vx :: real
  e_vy :: real

type_synonym snapshot = "string \<rightharpoonup> entry"

definition entry_of :: "body \<Rightarrow> entry" where
  "entry_of b = \<lparr>e_x = pos_x b, e_y = pos_y b, e_vx = vel_x b, e_vy = vel_y b\<rparr>"

text \<open>The loop \<^verbatim>\<open>for (const key in bodies)\<close> of \<^verbatim>\<open>stepWorld\<close>.\<close>

definition build_snapshot :: "world \<Rightarrow> snapshot" where
  "build_snapshot w = (\<lambda>k. map_option entry_of (bodies w k))"

text \<open>The two messages the worker posts to the main thread.\<close>

datatype worker_msg =
    GoalMsg string
  | StateMsg snapshot

text \<open>
  \<^verbatim>\<open>stepWorld\<close>. The rigid-body solver \<^verbatim>\<open>world.Step(1 / 120, 8, 3)\<close> is Box2D's and is
  the parameter \<open>Step\<close>. The result is the world after the tick and the messages posted
  during it, in order.
\<close>

definition stepWorld :: "(world \<Rightarrow> world) \<Rightarrow> world \<Rightarrow> world \<times> worker_msg list" where
  "stepWorld Step w0 =
     (let w = Step w0;
          ballPos = pos_x (ball w);
          goal = (if ballPos < - 0.5 then Some ''right''
                  else if ballPos > WORLD_WIDTH + 0.5 then Some ''left''
                  else None)
      in case goal of
           Some g \<Rightarrow> (let w' = resetPositions w in (w', [GoalMsg g, StateMsg (build_snapshot w')]))
         | None \<Rightarrow> (w, [StateMsg (build_snapshot w)]))"

text \<open>The input object of an \<^verbatim>\<open>input\<close> message: \<^verbatim>\<open>{left, right, jump, super}\<close>.\<close>

record command =
  left :: bool
  right :: bool
  jump :: bool
  super :: bool

text \<open>
  \<^verbatim>\<open>handleInput\<close>. \<^verbatim>\<open>vel\<close> is read before the velocity is set and the set keeps its
  vertical component, so both uses of \<^verbatim>\<open>vel.get_y()\<close> see the same value.
\<close>

definition handleInput :: "world \<Rightarrow> string \<Rightarrow> command \<Rightarrow> world" where
  "handleInput w ident input =
     (case bodies w ident of
        None \<Rightarrow> w
      | Some b0 \<Rightarrow>
          (let vel_y0 = vel_y b0;
               speed = 4;
               v = (if left input \<and> \<not> right input then - speed
                    else if right input \<and> \<not> left input then speed
                    else 0);
               b1 = SetLinearVelocity b0 (v, vel_y0);
               b2 = (if jump input then
                       (if pos_y b1 \<le> PLAYER_RADIUS + 0.05 \<and> \<bar>vel_y0\<bar> < 0.1
                        then ApplyLinearImpulse b1 (0, 6.2 * mass b1)
                        else b1)
                     else b1)
           in set_body w ident b2))"

text \<open>The messages the main thread posts to the worker.\<close>

datatype main_msg =
    InputMsg string command
  | ResetMsg
  | SuperMsg string

text \<open>\<^verbatim>\<open>self.onmessage\<close> of the worker.\<close>

fun worker_onmessage :: "world \<Rightarrow> main_msg \<Rightarrow> world" where
  "worker_onmessage w (InputMsg ident input) = handleInput w ident input"
| "worker_onmessage w ResetMsg = resetPositions w"
| "worker_onmessage w (SuperMsg ident) =
     (case bodies w ident of
        None \<Rightarrow> w
      | Some b \<Rightarrow> set_body w ident (ApplyLinearImpulse b (0, 12.0 * mass b)))"

text \<open>The goal messages and the state messages among the posted ones.\<close>

fun goals_of :: "worker_msg list \<Rightarrow> string list" where
  "goals_of [] = []"
| "goals_of (GoalMsg g # ms) = g # goals_of ms"
| "goals_of (StateMsg s # ms) = goals_of ms"

fun states_of :: "worker_msg list \<Rightarrow> snapshot list" where
  "states_of [] = []"
| "states_of (GoalMsg g # ms) = states_of ms"
| "states_of (StateMsg s # ms) = s # states_of ms"

section \<open>main.js: AI profiles\<close>

record profile =
  reactionTime :: real
  aimError :: real

text \<open>The table \<^verbatim>\<open>aiProfiles\<close>; \<open>None\<close> for a name that is not a key of it.\<close>

definition aiProfiles :: "string \<Rightarrow> profile option" where
  "aiProfiles name =
     (if name = ''Rookie'' then Some \<lparr>reactionTime = 0.30, aimError = 15\<rparr>
      else if name = ''Amateur'' then Some \<lparr>reactionTime = 0.25, aimError = 12\<rparr>
      else if name = ''Pro'' then Some \<lparr>reactionTime = 0.20, aimError = 9\<rparr>
      else if name = ''Elite'' then Some \<lparr>reactionTime = 0.15, aimError = 6\<rparr>
      else if name = ''Legend'' then Some \<lparr>reactionTime = 0.12, aimError = 3\<rparr>
      else None)"

section \<open>main.js: the match (\<^verbatim>\<open>startMatch\<close>)\<close>

text \<open>
  The options object of \<^verbatim>\<open>startMatch\<close>: \<^verbatim>\<open>options.ai\<close>, \<^verbatim>\<open>options.replay\<close> and
  \<^verbatim>\<open>options.aiLevel\<close> (\<open>None\<close> when absent or empty).
\<close>

record options =
  ai :: bool
  replay :: bool
  aiLevel :: "string option"

text \<open>
  The variables of the \<^verbatim>\<open>startMatch\<close> closure that the timer, the score and the AI use.
  \<open>timerText\<close> holds the minutes and seconds shown. \<open>ended\<close> records that \<^verbatim>\<open>endMatch\<close>
  has run: it terminates the worker and destroys the ticker, so neither \<^verbatim>\<open>update\<close> nor
  the worker's message handler runs again. Sprites, camera, particles, the replay
  recorder and the key and button handlers, which write \<open>playerInput\<close> and
  \<open>superCooldown1\<close> only, are left out.
\<close>

record match_state =
  scoreLeft :: nat
  scoreRight :: nat
  timeLeftMs :: real
  overtime :: bool
  timerText :: "int \<times> int"
  latestState :: "snapshot option"
  playerInput :: command
  aiProfile :: profile
  aiDecisionCountdown :: real
  aiLastInput :: command
  superCooldown1 :: real
  superCooldown2 :: real
  ended :: bool

definition no_input :: command where
  "no_input = \<lparr>left = False, right = False, jump = False, super = False\<rparr>"

text \<open>
  The state in which \<^verbatim>\<open>startMatch\<close> leaves the closure; \<open>selectedAILevel\<close> is the
  global of that name.
\<close>

definition startMatch :: "options \<Rightarrow> string \<Rightarrow> match_state" where
  "startMatch opts selectedAILevel =
     (let aiLevelName = (case aiLevel opts of Some n \<Rightarrow> n | None \<Rightarrow> selectedAILevel);
          prof = (case aiProfiles aiLevelName of
                    Some p \<Rightarrow> p
                  | None \<Rightarrow> \<lparr>reactionTime = 0.30, aimError = 15\<rparr>)
      in \<lparr>scoreLeft = 0, scoreRight = 0, timeLeftMs = 90 * 1000, overtime = False,
          timerText = (1, 30), latestState = None, playerInput = no_input,
          aiProfile = prof, aiDecisionCountdown = 0, aiLastInput = no_input,
          superCooldown1 = 0, superCooldown2 = 0, ended = False\<rparr>)"

definition endMatch :: "match_state \<Rightarrow> match_state" where
  "endMatch m = m\<lparr>ended := True\<rparr>"

text \<open>\<^verbatim>\<open>worker.onmessage\<close>, installed when the match is not a replay.\<close>

fun onmessage :: "match_state \<Rightarrow> worker_msg \<Rightarrow> match_state" where
  "onmessage m (StateMsg s) = m\<lparr>latestState := Some s\<rparr>"
| "onmessage m (GoalMsg scorer) =
     (let m1 = (if scorer = ''left'' then m\<lparr>scoreLeft := scoreLeft m + 1\<rparr>
                else m\<lparr>scoreRight := scoreRight m + 1\<rparr>)
      in if overtime m1 then endMatch m1 else m1)"

text \<open>
  The aiming error and the target of a decision. \<open>rnd\<close> is the value that
  \<^verbatim>\<open>Math.random()\<close> returns there, a number in \<open>[0, 1)\<close>.
\<close>

definition aim_err :: "profile \<Rightarrow> real \<Rightarrow> real" where
  "aim_err prof rnd = (rnd - 0.5) * 2 * (aimError prof / 90)"

definition predictedX :: "entry \<Rightarrow> real" where
  "predictedX bl = e_x bl + e_vx bl * 0.5"

definition targetX :: "profile \<Rightarrow> entry \<Rightarrow> real \<Rightarrow> real" where
  "targetX prof bl rnd = min (max (predictedX bl + aim_err prof rnd) 0) WORLD_WIDTH"

text \<open>
  The body of \<^verbatim>\<open>if (aiDecisionCountdown <= 0)\<close> after the countdown is reset: the new
  command and, with it, the \<^verbatim>\<open>super\<close> message.
\<close>

definition ai_decide :: "real \<Rightarrow> match_state \<Rightarrow> match_state \<times> main_msg list" where
  "ai_decide rnd m =
     (case latestState m of
        None \<Rightarrow> (m, [])
      | Some st \<Rightarrow>
          (case (st ''ball'', st ''2'') of
             (Some bl, Some aiBody) \<Rightarrow>
               (let t = targetX (aiProfile m) bl rnd;
                    c1 = (if \<bar>t - e_x aiBody\<bar> > 0.05
                          then (aiLastInput m)\<lparr>left := t < e_x aiBody, right := t > e_x aiBody\<rparr>
                          else (aiLastInput m)\<lparr>left := False, right := False\<rparr>);
                    c2 = c1\<lparr>jump := (e_y bl > e_y aiBody + 0.3 \<and> \<bar>e_x bl - e_x aiBody\<bar> < 0.5)\<rparr>
                in if superCooldown2 m \<le> 0 \<and> e_y bl > e_y aiBody + 1.0
                      \<and> \<bar>e_x bl - e_x aiBody\<bar> < 0.6
                   then (m\<lparr>aiLastInput := c2\<lparr>super := True\<rparr>, superCooldown2 := 7000\<rparr>,
                         [SuperMsg ''2''])
                   else (m\<lparr>aiLastInput := c2\<lparr>super := False\<rparr>\<rparr>, []))
           | _ \<Rightarrow> (m, [])))"

text \<open>The AI block of \<^verbatim>\<open>update\<close>; \<open>dtMs\<close> is \<^verbatim>\<open>app.ticker.deltaMS\<close>.\<close>

definition update_ai :: "options \<Rightarrow> real \<Rightarrow> real \<Rightarrow> match_state \<Rightarrow> match_state \<times> main_msg list" where
  "update_ai opts dtMs rnd m =
     (if \<not> replay opts \<and> ai opts \<and> latestState m \<noteq> None then
        (let m1 = m\<lparr>aiDecisionCountdown := aiDecisionCountdown m - dtMs,
                     superCooldown2 := max 0 (superCooldown2 m - dtMs)\<rparr>;
             (m2, msgs) =
               (if aiDecisionCountdown m1 \<le> 0
                then ai_decide rnd (m1\<lparr>aiDecisionCountdown := reactionTime (aiProfile m1) * 1000\<rparr>)
                else (m1, []))
         in (m2, msgs @ [InputMsg ''2'' (aiLastInput m2)]))
      else (m, []))"

text \<open>
  \<^verbatim>\<open>update\<close> from the timer display on: the part that runs when the match goes on.
\<close>

definition update_rest :: "options \<Rightarrow> real \<Rightarrow> real \<Rightarrow> match_state \<Rightarrow> match_state \<times> main_msg list" where
  "update_rest opts dtMs rnd m =
     (let totalSeconds = max 0 \<lceil>timeLeftMs m / 1000\<rceil>;
          m1 = m\<lparr>timerText := (totalSeconds div 60, totalSeconds mod 60)\<rparr>;
          (m2, msgs1) =
            (if \<not> replay opts
             then (m1\<lparr>playerInput := (playerInput m1)\<lparr>super := False\<rparr>\<rparr>,
                   [InputMsg ''1'' (playerInput m1)])
             else (m1, []));
          (m3, msgs2) = update_ai opts dtMs rnd m2;
          m4 = (if \<not> replay opts
                then m3\<lparr>superCooldown1 := max 0 (superCooldown1 m3 - dtMs)\<rparr>
                else m3)
      in (m4, msgs1 @ msgs2))"

text \<open>\<^verbatim>\<open>update\<close>: the timer and the phase transitions, then the rest.\<close>

definition update :: "options \<Rightarrow> real \<Rightarrow> real \<Rightarrow> match_state \<Rightarrow> match_state \<times> main_msg list" where
  "update opts dtMs rnd m =
     (let m1 = m\<lparr>timeLeftMs := timeLeftMs m - dtMs\<rparr>
      in if \<not> overtime m1 \<and> timeLeftMs m1 \<le> 0 then
           (if scoreLeft m1 = scoreRight m1
            then update_rest opts dtMs rnd (m1\<lparr>overtime := True, timeLeftMs := 30 * 1000\<rparr>)
            else (endMatch m1, []))
         else if overtime m1 \<and> timeLeftMs m1 \<le> 0 then (endMatch m1, [])
         else update_rest opts dtMs rnd m1)"

datatype phase = Regulation | Overtime | Ended

definition phase_of :: "match_state \<Rightarrow> phase" where
  "phase_of m = (if ended m then Ended else if overtime m then Overtime else Regulation)"

text \<open>
  What happens to a match: a ticker frame with its \<^verbatim>\<open>deltaMS\<close> and the random number
  available to the AI, or a message from the worker. After \<^verbatim>\<open>endMatch\<close> neither is
  delivered; the worker's messages are not delivered to a replay.
\<close>

datatype event =
    Tick real real
  | FromWorker worker_msg

fun match_step :: "options \<Rightarrow> match_state \<Rightarrow> event \<Rightarrow> match_state \<times> main_msg list" where
  "match_step opts m (Tick dtMs rnd) = (if ended m then (m, []) else update opts dtMs rnd m)"
| "match_step opts m (FromWorker msg) =
     (if ended m \<or> replay opts then (m, []) else (onmessage m msg, []))"

text \<open>A run of events, with the messages posted by each.\<close>

fun match_run :: "options \<Rightarrow> match_state \<Rightarrow> event list \<Rightarrow> match_state \<times> main_msg list list" where
  "match_run opts m [] = (m, [])"
| "match_run opts m (ev # evs) =
     (let (m1, out) = match_step opts m ev;
          (m2, outs) = match_run opts m1 evs
      in (m2, out # outs))"

text \<open>The commands sent for player 2 among the messages of one frame.\<close>

fun ai_commands :: "main_msg list \<Rightarrow> command list" where
  "ai_commands [] = []"
| "ai_commands (InputMsg ident c # ms) = (if ident = ''2'' then c # ai_commands ms else ai_commands ms)"
| "ai_commands (ResetMsg # ms) = ai_commands ms"
| "ai_commands (SuperMsg ident # ms) = ai_commands ms"

section \<open>main.js: replay playback (\<^verbatim>\<open>playReplay\<close>)\<close>













section \<open>main.js: the persisted replay collection (\<^verbatim>\<open>loadReplays\<close>)\<close>

datatype json =
    JNull
  | JBool bool
  | JNum int
  | JStr string
  | JArr "json list"
  | JObj "(string \<times> json) list"

text \<open>What a \<^verbatim>\<open>try\<close> block can throw here.\<close>

datatype exn = SyntaxError | OutOfFuel

text \<open>
  The body of the \<^verbatim>\<open>try\<close> block. \<open>parse\<close> is \<^verbatim>\<open>JSON.parse\<close>, which returns the value
  of the whole text or throws; \<open>stored\<close> is what
  \<^verbatim>\<open>localStorage.getItem('replays')\<close> returns, \<open>None\<close> for \<^verbatim>\<open>null\<close>. A \<^verbatim>\<open>null\<close> and
  an empty string are falsy.
\<close>

definition loadReplays_try :: "(string \<Rightarrow> exn + json) \<Rightarrow> string option \<Rightarrow> exn + json" where
  "loadReplays_try parse stored =
     (case stored of
        None \<Rightarrow> Inr (JArr [])
      | Some text \<Rightarrow> (if text = [] then Inr (JArr []) else parse text))"

text \<open>\<^verbatim>\<open>loadReplays\<close>: the new value of the global \<^verbatim>\<open>replays\<close>.\<close>

definition loadReplays :: "(string \<Rightarrow> exn + json) \<Rightarrow> string option \<Rightarrow> json" where
  "loadReplays parse stored =
     (case loadReplays_try parse stored of
        Inl e \<Rightarrow> JArr []
      | Inr v \<Rightarrow> v)"

subsection \<open>A parser for a fragment of JSON\<close>

text \<open>
  A stand-in for \<^verbatim>\<open>JSON.parse\<close> on concrete texts: white space, \<^verbatim>\<open>null\<close>,
  \<^verbatim>\<open>true\<close>, \<^verbatim>\<open>false\<close>, integers, strings without escapes, arrays and objects.
  Fractions, exponents and escape sequences are outside the fragment and are rejected
  here. The recursion is bounded by a counter; \<open>OutOfFuel\<close> says that the counter ran
  out, which is not a syntax error. The properties of \<open>loadReplays\<close> are stated for any
  parser.
\<close>

definition is_ws :: "char \<Rightarrow> bool" where
  "is_ws c = (c = CHR '' '' \<or> c = CHR 0x0A \<or> c = CHR 0x0D \<or> c = CHR 0x09)"

definition skip_ws :: "string \<Rightarrow> string" where
  "skip_ws s = dropWhile is_ws s"

definition is_digit :: "char \<Rightarrow> bool" where
  "is_digit c = (48 \<le> (of_char c :: nat) \<and> (of_char c :: nat) \<le> 57)"

definition digit_val :: "char \<Rightarrow> int" where
  "digit_val c = int (of_char c) - 48"

definition digits_val :: "string \<Rightarrow> int" where
  "digits_val ds = foldl (\<lambda>a c. 10 * a + digit_val c) 0 ds"

text \<open>A literal \<open>lit\<close> at the head of the text.\<close>

definition strip_prefix :: "string \<Rightarrow> string \<Rightarrow> string option" where
  "strip_prefix lit s = (if take (length lit) s = lit then Some (drop (length lit) s) else None)"

text \<open>A string after its opening quote: the characters up to the closing quote.\<close>

definition parse_string :: "string \<Rightarrow> exn + (string \<times> string)" where
  "parse_string s =
     (let body = takeWhile (\<lambda>c. c \<noteq> CHR 0x22) s; rest = dropWhile (\<lambda>c. c \<noteq> CHR 0x22) s
      in if rest = [] \<or> (\<exists>c \<in> set body. c = CHR 0x5C \<or> of_char c < (32::nat))
         then Inl SyntaxError
         else Inr (body, tl rest))"

definition parse_number :: "string \<Rightarrow> exn + (json \<times> string)" where
  "parse_number s =
     (let neg = (s \<noteq> [] \<and> hd s = CHR ''-'');
          s1 = (if neg then tl s else s);
          ds = takeWhile is_digit s1;
          rest = dropWhile is_digit s1
      in if ds = [] \<or> (hd ds = CHR ''0'' \<and> length ds > 1) then Inl SyntaxError
         else Inr (JNum (if neg then - digits_val ds else digits_val ds), rest))"

fun parse_value :: "nat \<Rightarrow> string \<Rightarrow> exn + (json \<times> string)"
  and parse_elements :: "nat \<Rightarrow> string \<Rightarrow> exn + (json list \<times> string)"
  and parse_members :: "nat \<Rightarrow> string \<Rightarrow> exn + ((string \<times> json) list \<times> string)"
where
  "parse_value 0 s = Inl OutOfFuel"
| "parse_value (Suc n) s =
     (case skip_ws s of
        [] \<Rightarrow> Inl SyntaxError
      | c # cs \<Rightarrow>
          if c = CHR ''['' then
            (case skip_ws cs of
               [] \<Rightarrow> Inl SyntaxError
             | d # ds \<Rightarrow>
                 if d = CHR '']'' then Inr (JArr [], ds)
                 else (case parse_elements n cs of
                         Inl e \<Rightarrow> Inl e
                       | Inr (vs, r) \<Rightarrow> Inr (JArr vs, r)))
          else if c = CHR ''{'' then
            (case skip_ws cs of
               [] \<Rightarrow> Inl SyntaxError
             | d # ds \<Rightarrow>
                 if d = CHR ''}'' then Inr (JObj [], ds)
                 else (case parse_members n cs of
                         Inl e \<Rightarrow> Inl e
                       | Inr (kvs, r) \<Rightarrow> Inr (JObj kvs, r)))
          else if c = CHR 0x22 then
            (case parse_string cs of
               Inl e \<Rightarrow> Inl e
             | Inr (str, r) \<Rightarrow> Inr (JStr str, r))
          else (case strip_prefix ''null'' (c # cs) of
                  Some r \<Rightarrow> Inr (JNull, r)
                | None \<Rightarrow>
                   (case strip_prefix ''true'' (c # cs) of
                      Some r \<Rightarrow> Inr (JBool True, r)
                    | None \<Rightarrow>
                       (case strip_prefix ''false'' (c # cs) of
                          Some r \<Rightarrow> Inr (JBool False, r)
                        | None \<Rightarrow> parse_number (c # cs)))))"
| "parse_elements 0 s = Inl OutOfFuel"
| "parse_elements (Suc n) s =
     (case parse_value n s of
        Inl e \<Rightarrow> Inl e
      | Inr (v, r) \<Rightarrow>
          (case skip_ws r of
             [] \<Rightarrow> Inl SyntaxError
           | c # cs \<Rightarrow>
               if c = CHR '']'' then Inr ([v], cs)
               else if c = CHR '','' then
                 (case parse_elements n cs of
                    Inl e \<Rightarrow> Inl e
                  | Inr (vs, r') \<Rightarrow> Inr (v # vs, r'))
               else Inl SyntaxError))"
| "parse_members 0 s = Inl OutOfFuel"
| "parse_members (Suc n) s =
     (case skip_ws s of
        [] \<Rightarrow> Inl SyntaxError
      | q # s1 \<Rightarrow>
          if q \<noteq> CHR 0x22 then Inl SyntaxError
          else (case parse_string s1 of
                  Inl e \<Rightarrow> Inl e
                | Inr (k, s2) \<Rightarrow>
                   (case skip_ws s2 of
                      [] \<Rightarrow> Inl SyntaxError
                    | col # s3 \<Rightarrow>
                        if col \<noteq> CHR '':'' then Inl SyntaxError
                        else (case parse_value n s3 of
                                Inl e \<Rightarrow> Inl e
                              | Inr (v, r) \<Rightarrow>
                                  (case skip_ws r of
                                     [] \<Rightarrow> Inl SyntaxError
                                   | c # cs \<Rightarrow>
                                       if c = CHR ''}'' then Inr ([(k, v)], cs)
                                       else if c = CHR '','' then
                                         (case parse_members n cs of
                                            Inl e \<Rightarrow> Inl e
                                          | Inr (kvs, r') \<Rightarrow> Inr ((k, v) # kvs, r'))
                                       else Inl SyntaxError)))))"

definition JSON_parse :: "string \<Rightarrow> exn + json" where
  "JSON_parse s =
     (case parse_value (2 * length s + 2) s of
        Inl e \<Rightarrow> Inl e
      | Inr (v, r) \<Rightarrow> (if skip_ws r = [] then Inr v else Inl SyntaxError))"

section \<open>Example inputs\<close>

text \<open>
  A world in which player 1 is in the air, moving right and upwards, and a command that
  only asks for a jump.
\<close>

definition airborne_world :: world where
  "airborne_world =
     \<lparr>ball = \<lparr>pos_x = 5, pos_y = 4, angle = 0, vel_x = 0, vel_y = 0, ang_vel = 0, mass = 0.02\<rparr>,
      player1 = \<lparr>pos_x = 2, pos_y = 2, angle = 0, vel_x = 4, vel_y = 1.5, ang_vel = 0, mass = 0.28\<rparr>,
      player2 = \<lparr>pos_x = 8, pos_y = 1, angle = 0, vel_x = 0, vel_y = 0, ang_vel = 0, mass = 0.28\<rparr>\<rparr>"

definition jump_only :: command where
  "jump_only = \<lparr>left = False, right = False, jump = True, super = False\<rparr>"

text \<open>A solver step that throws the ball out on the left, and one on the right.\<close>

definition kick_left :: "world \<Rightarrow> world" where
  "kick_left w = w\<lparr>ball := (ball w)\<lparr>pos_x := - 0.7, vel_x := - 9\<rparr>\<rparr>"

definition kick_right :: "world \<Rightarrow> world" where
  "kick_right w = w\<lparr>ball := (ball w)\<lparr>pos_x := 10.6, vel_x := 9\<rparr>\<rparr>"

text \<open>A match against the Rookie AI, as the menu starts it.\<close>

definition rookie_options :: options where
  "rookie_options = \<lparr>ai = True, replay = False, aiLevel = Some ''Rookie''\<rparr>"

definition rookie_match :: match_state where
  "rookie_match = startMatch rookie_options ''Rookie''"

text \<open>The same match once a first snapshot has arrived, and matches late in a phase.\<close>

definition seen_match :: match_state where
  "seen_match = rookie_match\<lparr>latestState := Some (build_snapshot airborne_world)\<rparr>"

definition late_tied :: match_state where
  "late_tied = rookie_match\<lparr>timeLeftMs := 10\<rparr>"

definition late_untied :: match_state where
  "late_untied = rookie_match\<lparr>scoreLeft := 1, timeLeftMs := 10\<rparr>"

definition in_overtime :: match_state where
  "in_overtime = rookie_match\<lparr>overtime := True, timeLeftMs := 25000\<rparr>"



text \<open>
  A stored collection of one well-formed record, and the same collection followed by a
  record that is cut off.
\<close>

definition stored_good :: string where
  "stored_good = ''[{\"timestamp\":1,\"frames\":[]}]''"

definition stored_damaged :: string where
  "stored_damaged = ''[{\"timestamp\":1,\"frames\":[]},{\"timestamp\":]''"

text \<open>A collection whose second entry parses but is no record at all.\<close>

definition stored_odd :: string where
  "stored_odd = ''[{\"timestamp\":1,\"frames\":[]},5]''"

section \<open>Auxiliary notions\<close>

text \<open>The consumer time that an event takes.\<close>

fun tick_ms :: "event \<Rightarrow> real" where
  "tick_ms (Tick dtMs rnd) = dtMs"
| "tick_ms (FromWorker msg) = 0"

text \<open>The variables that the AI block of \<^verbatim>\<open>update\<close> reads and writes.\<close>

definition ai_view :: "match_state \<Rightarrow> snapshot option \<times> profile \<times> real \<times> command \<times> real" where
  "ai_view m =
     (latestState m, aiProfile m, aiDecisionCountdown m, aiLastInput m, superCooldown2 m)"


section \<open>Properties of the simulation driver\<close>

lemma bodies_ball: "bodies w ''ball'' = Some (ball w)"
  by (simp add: bodies_def)

lemma ball_reset: "pos_x (ball (resetPositions w)) = WORLD_WIDTH / 2"
  by (simp add: resetPositions_def Let_def SetTransform_def SetLinearVelocity_def
      SetAngularVelocity_def)

text \<open>
  C2. After the solver step of a tick: a ball left of \<open>-0.5\<close> makes the worker post
  exactly the goal message \<open>right\<close>, which the match credits to the right side; a ball
  right of \<open>WORLD_WIDTH + 0.5\<close>, with \<open>WORLD_WIDTH = 10\<close>, makes it post exactly the
  goal message \<open>left\<close>, credited to the left side; otherwise the tick posts no goal
  message.
\<close>

theorem goal_side_attribution:
  "(pos_x (ball (Step w0)) < - 0.5 \<longrightarrow>
      goals_of (snd (stepWorld Step w0)) = [''right'']
      \<and> scoreRight (onmessage m (GoalMsg ''right'')) = scoreRight m + 1
      \<and> scoreLeft (onmessage m (GoalMsg ''right'')) = scoreLeft m)
   \<and> (pos_x (ball (Step w0)) > WORLD_WIDTH + 0.5 \<longrightarrow>
      goals_of (snd (stepWorld Step w0)) = [''left'']
      \<and> scoreLeft (onmessage m (GoalMsg ''left'')) = scoreLeft m + 1
      \<and> scoreRight (onmessage m (GoalMsg ''left'')) = scoreRight m)
   \<and> (- 0.5 \<le> pos_x (ball (Step w0)) \<and> pos_x (ball (Step w0)) \<le> WORLD_WIDTH + 0.5 \<longrightarrow>
      goals_of (snd (stepWorld Step w0)) = [])
   \<and> WORLD_WIDTH = 10"
  by (simp add: stepWorld_def Let_def WORLD_WIDTH_def endMatch_def)

theorem goal_side_attribution_witness:
  "goals_of (snd (stepWorld kick_left airborne_world)) = [''right'']
   \<and> scoreRight (onmessage rookie_match (GoalMsg ''right'')) = 1
   \<and> goals_of (snd (stepWorld kick_right airborne_world)) = [''left'']
   \<and> scoreLeft (onmessage rookie_match (GoalMsg ''left'')) = 1
   \<and> goals_of (snd (stepWorld id airborne_world)) = []"
proof -
  have a: "pos_x (ball (kick_left airborne_world)) < - 0.5"
    by (simp add: kick_left_def)
  have b: "pos_x (ball (kick_right airborne_world)) > WORLD_WIDTH + 0.5"
    by (simp add: kick_right_def WORLD_WIDTH_def)
  have c: "- 0.5 \<le> pos_x (ball (id airborne_world))
           \<and> pos_x (ball (id airborne_world)) \<le> WORLD_WIDTH + 0.5"
    by (simp add: airborne_world_def WORLD_WIDTH_def)
  have z: "scoreRight rookie_match = 0 \<and> scoreLeft rookie_match = 0"
    by (simp add: rookie_match_def startMatch_def Let_def)
  from a goal_side_attribution [of kick_left airborne_world rookie_match]
  have 1: "goals_of (snd (stepWorld kick_left airborne_world)) = [''right'']
           \<and> scoreRight (onmessage rookie_match (GoalMsg ''right'')) = scoreRight rookie_match + 1"
    by blast
  from b goal_side_attribution [of kick_right airborne_world rookie_match]
  have 2: "goals_of (snd (stepWorld kick_right airborne_world)) = [''left'']
           \<and> scoreLeft (onmessage rookie_match (GoalMsg ''left'')) = scoreLeft rookie_match + 1"
    by blast
  from c goal_side_attribution [of id airborne_world rookie_match]
  have 3: "goals_of (snd (stepWorld id airborne_world)) = []"
    by blast
  from 1 2 3 z show ?thesis by simp
qed

text \<open>
  C3. Every tick posts exactly one state snapshot, as its last message, and the snapshot
  is taken of the world as the tick leaves it. Its ball entry lies within
  \<open>[-0.5, WORLD_WIDTH + 0.5]\<close>; on a tick with a goal the world it shows is the reset
  one, with the ball at \<open>WORLD_WIDTH / 2\<close>.
\<close>

theorem one_snapshot_after_reset:
  "\<exists>s e. states_of (snd (stepWorld Step w0)) = [s]
      \<and> last (snd (stepWorld Step w0)) = StateMsg s
      \<and> s = build_snapshot (fst (stepWorld Step w0))
      \<and> s ''ball'' = Some e
      \<and> - 0.5 \<le> e_x e \<and> e_x e \<le> WORLD_WIDTH + 0.5
      \<and> (goals_of (snd (stepWorld Step w0)) \<noteq> [] \<longrightarrow>
            fst (stepWorld Step w0) = resetPositions (Step w0) \<and> e_x e = WORLD_WIDTH / 2)"
  by (simp add: stepWorld_def Let_def build_snapshot_def bodies_ball entry_of_def ball_reset
      WORLD_WIDTH_def)

theorem one_snapshot_after_reset_witness:
  "goals_of (snd (stepWorld kick_left airborne_world)) \<noteq> []
   \<and> (\<exists>s e. states_of (snd (stepWorld kick_left airborne_world)) = [s]
         \<and> s ''ball'' = Some e \<and> e_x e = 5)"
proof -
  have g: "goals_of (snd (stepWorld kick_left airborne_world)) \<noteq> []"
    by (simp add: stepWorld_def kick_left_def airborne_world_def Let_def)
  from one_snapshot_after_reset [of kick_left airborne_world]
  obtain s e where "states_of (snd (stepWorld kick_left airborne_world)) = [s]"
    and "s ''ball'' = Some e"
    and "goals_of (snd (stepWorld kick_left airborne_world)) \<noteq> [] \<longrightarrow>
           fst (stepWorld kick_left airborne_world) = resetPositions (kick_left airborne_world)
           \<and> e_x e = WORLD_WIDTH / 2"
    by blast
  with g show ?thesis by (auto simp add: WORLD_WIDTH_def)
qed

text \<open>
  C5, as stated: a jump command applied to an entity above the resting height changes no
  velocity. It fails: player 1 is at height 2 with velocity \<open>(4, 1.5)\<close>, the command asks
  for a jump and for no direction, and the velocity becomes \<open>(0, 1.5)\<close>.
\<close>

theorem gated_jump_counterexample:
  "jump jump_only
   \<and> pos_y (player1 airborne_world) > PLAYER_RADIUS + 0.05
   \<and> \<bar>vel_y (player1 airborne_world)\<bar> > 0.1
   \<and> vel_x (player1 airborne_world) = 4
   \<and> vel_x (player1 (handleInput airborne_world ''1'' jump_only)) = 0"
  by (simp add: handleInput_def bodies_def set_body_def Let_def SetLinearVelocity_def
      airborne_world_def jump_only_def PLAYER_RADIUS_def)

text \<open>
  C5, amended. A jump command applied while the entity's vertical position exceeds
  \<open>PLAYER_RADIUS + 0.05\<close>, or while the magnitude of its vertical velocity exceeds
  \<open>0.1\<close>, applies no impulse: the vertical velocity and the position are unchanged. The
  horizontal velocity is still set from the direction flags, to \<open>-4\<close>, \<open>4\<close> or \<open>0\<close>.
\<close>

theorem gated_jump_keeps_vertical_velocity:
  assumes "bodies w ident = Some b"
      and "jump input"
      and "pos_y b > PLAYER_RADIUS + 0.05 \<or> \<bar>vel_y b\<bar> > 0.1"
  shows "handleInput w ident input =
           set_body w ident
             (b\<lparr>vel_x := (if left input \<and> \<not> right input then - 4
                          else if right input \<and> \<not> left input then 4 else 0)\<rparr>)
         \<and> (\<exists>b'. bodies (handleInput w ident input) ident = Some b' \<and> vel_y b' = vel_y b)"
  using assms
  by (auto simp add: handleInput_def Let_def SetLinearVelocity_def bodies_def set_body_def
      split: if_splits)

theorem gated_jump_keeps_vertical_velocity_witness:
  "bodies airborne_world ''1'' = Some (player1 airborne_world)
   \<and> jump jump_only
   \<and> pos_y (player1 airborne_world) > PLAYER_RADIUS + 0.05
   \<and> (\<exists>b'. bodies (handleInput airborne_world ''1'' jump_only) ''1'' = Some b'
         \<and> vel_y b' = 1.5 \<and> vel_x b' = 0)"
proof -
  have h1: "bodies airborne_world ''1'' = Some (player1 airborne_world)"
    by (simp add: bodies_def)
  have h2: "jump jump_only"
    by (simp add: jump_only_def)
  have h3: "pos_y (player1 airborne_world) > PLAYER_RADIUS + 0.05
            \<or> \<bar>vel_y (player1 airborne_world)\<bar> > 0.1"
    by (simp add: airborne_world_def PLAYER_RADIUS_def)
  from gated_jump_keeps_vertical_velocity [OF h1 h2 h3] h1 h2
  show ?thesis
    by (simp add: airborne_world_def jump_only_def PLAYER_RADIUS_def bodies_def set_body_def)
qed

section \<open>Properties of the match\<close>

lemma ai_decide_frame:
  assumes "ai_decide rnd m = (m', out)"
  shows "timeLeftMs m' = timeLeftMs m \<and> overtime m' = overtime m \<and> ended m' = ended m
       \<and> scoreLeft m' = scoreLeft m \<and> scoreRight m' = scoreRight m
       \<and> aiProfile m' = aiProfile m \<and> latestState m' = latestState m
       \<and> aiDecisionCountdown m' = aiDecisionCountdown m \<and> timerText m' = timerText m
       \<and> ai_commands out = []"
  using assms
  by (auto simp add: ai_decide_def Let_def split: option.splits if_splits)

lemma update_ai_frame:
  assumes "update_ai opts dtMs rnd m = (m', out)"
  shows "timeLeftMs m' = timeLeftMs m \<and> overtime m' = overtime m \<and> ended m' = ended m
       \<and> scoreLeft m' = scoreLeft m \<and> scoreRight m' = scoreRight m
       \<and> aiProfile m' = aiProfile m \<and> latestState m' = latestState m
       \<and> timerText m' = timerText m"
proof (cases "\<not> replay opts \<and> ai opts \<and> latestState m \<noteq> None")
  case False
  with assms show ?thesis by (auto simp add: update_ai_def)
next
  case True
  let ?m1 = "m\<lparr>aiDecisionCountdown := aiDecisionCountdown m - dtMs,
                 superCooldown2 := max 0 (superCooldown2 m - dtMs)\<rparr>"
  show ?thesis
  proof (cases "aiDecisionCountdown m - dtMs \<le> 0")
    case False
    with True assms show ?thesis
      by (auto simp add: update_ai_def Let_def)
  next
    case dec: True
    obtain m2 msgs where
      d: "ai_decide rnd (?m1\<lparr>aiDecisionCountdown := reactionTime (aiProfile ?m1) * 1000\<rparr>)
            = (m2, msgs)"
      by (cases "ai_decide rnd
                   (?m1\<lparr>aiDecisionCountdown := reactionTime (aiProfile ?m1) * 1000\<rparr>)")
    from True dec d assms have "m' = m2"
      by (auto simp add: update_ai_def Let_def)
    with ai_decide_frame [OF d] show ?thesis by simp
  qed
qed

lemma update_rest_frame:
  assumes "update_rest opts dtMs rnd m = (m', out)"
  shows "timeLeftMs m' = timeLeftMs m \<and> overtime m' = overtime m \<and> ended m' = ended m
       \<and> scoreLeft m' = scoreLeft m \<and> scoreRight m' = scoreRight m
       \<and> aiProfile m' = aiProfile m \<and> latestState m' = latestState m
       \<and> timerText m' =
           (max 0 \<lceil>timeLeftMs m / 1000\<rceil> div 60, max 0 \<lceil>timeLeftMs m / 1000\<rceil> mod 60)"
proof -
  let ?ts = "max 0 \<lceil>timeLeftMs m / 1000\<rceil>"
  let ?m1 = "m\<lparr>timerText := (?ts div 60, ?ts mod 60)\<rparr>"
  let ?m2 = "if \<not> replay opts
             then ?m1\<lparr>playerInput := (playerInput ?m1)\<lparr>super := False\<rparr>\<rparr> else ?m1"
  obtain m3 msgs2 where a: "update_ai opts dtMs rnd ?m2 = (m3, msgs2)"
    by (cases "update_ai opts dtMs rnd ?m2")
  from assms a have
    "m' = (if \<not> replay opts
           then m3\<lparr>superCooldown1 := max 0 (superCooldown1 m3 - dtMs)\<rparr> else m3)"
    by (auto simp add: update_rest_def Let_def split: if_splits)
  with update_ai_frame [OF a] show ?thesis by (auto split: if_splits)
qed

lemma update_goes_on:
  assumes "\<not> ended m" and "0 < timeLeftMs m - dtMs"
  shows "\<not> ended (fst (update opts dtMs rnd m))"
proof -
  let ?m1 = "m\<lparr>timeLeftMs := timeLeftMs m - dtMs\<rparr>"
  from assms(2) have "update opts dtMs rnd m = update_rest opts dtMs rnd ?m1"
    by (simp add: update_def Let_def)
  moreover have "ended (fst (update_rest opts dtMs rnd ?m1)) = ended m"
    using update_rest_frame [of opts dtMs rnd ?m1] by (cases "update_rest opts dtMs rnd ?m1") simp
  ultimately show ?thesis using assms(1) by simp
qed

lemma rookie_match_fields:
  "scoreLeft rookie_match = 0" "scoreRight rookie_match = 0" "timeLeftMs rookie_match = 90000"
  "\<not> overtime rookie_match" "\<not> ended rookie_match" "latestState rookie_match = None"
  "aiProfile rookie_match = \<lparr>reactionTime = 0.30, aimError = 15\<rparr>"
  "aiDecisionCountdown rookie_match = 0" "aiLastInput rookie_match = no_input"
  by (simp_all add: rookie_match_def rookie_options_def startMatch_def aiProfiles_def Let_def)

lemma seen_match_fields:
  "\<not> ended seen_match" "timeLeftMs seen_match = 90000"
  "latestState seen_match = Some (build_snapshot airborne_world)"
  "aiProfile seen_match = \<lparr>reactionTime = 0.30, aimError = 15\<rparr>"
  "aiDecisionCountdown seen_match = 0"
  by (simp_all add: seen_match_def rookie_match_fields)

lemma airborne_entries:
  "build_snapshot airborne_world ''ball'' = Some (entry_of (ball airborne_world))"
  "build_snapshot airborne_world ''2'' = Some (entry_of (player2 airborne_world))"
  "e_x (entry_of (ball airborne_world)) = 5" "e_vx (entry_of (ball airborne_world)) = 0"
  "e_x (entry_of (player2 airborne_world)) = 8"
  by (simp_all add: build_snapshot_def bodies_def entry_of_def airborne_world_def)

lemma rookie_target:
  "targetX (aiProfile seen_match) (entry_of (ball airborne_world)) (1 / 2) = 5"
  unfolding targetX_def predictedX_def aim_err_def
  by (simp add: airborne_entries seen_match_fields WORLD_WIDTH_def)

text \<open>
  C1. A frame in regulation that brings the remaining time to zero or below moves a tied
  match to overtime with exactly 30000 ms remaining, and ends a match that is not tied.
  In overtime a goal message ends the match, whatever time remains.
\<close>

theorem phase_transitions:
  "(phase_of m = Regulation \<and> timeLeftMs m - dtMs \<le> 0 \<and> scoreLeft m = scoreRight m \<longrightarrow>
      phase_of (fst (match_step opts m (Tick dtMs rnd))) = Overtime
      \<and> timeLeftMs (fst (match_step opts m (Tick dtMs rnd))) = 30000)
   \<and> (phase_of m = Regulation \<and> timeLeftMs m - dtMs \<le> 0 \<and> scoreLeft m \<noteq> scoreRight m \<longrightarrow>
      phase_of (fst (match_step opts m (Tick dtMs rnd))) = Ended)
   \<and> (phase_of m = Overtime \<and> \<not> replay opts \<longrightarrow>
      phase_of (fst (match_step opts m (FromWorker (GoalMsg scorer)))) = Ended)"
proof (intro conjI impI)
  assume h: "phase_of m = Regulation \<and> timeLeftMs m - dtMs \<le> 0 \<and> scoreLeft m = scoreRight m"
  then have ne: "\<not> ended m" "\<not> overtime m"
    by (auto simp add: phase_of_def split: if_splits)
  let ?m0 = "m\<lparr>timeLeftMs := timeLeftMs m - dtMs, overtime := True, timeLeftMs := 30 * 1000\<rparr>"
  obtain m' out where r: "update_rest opts dtMs rnd ?m0 = (m', out)"
    by (cases "update_rest opts dtMs rnd ?m0")
  from h ne r have s: "fst (match_step opts m (Tick dtMs rnd)) = m'"
    by (simp add: update_def Let_def)
  from update_rest_frame [OF r] ne
  show "phase_of (fst (match_step opts m (Tick dtMs rnd))) = Overtime"
    and "timeLeftMs (fst (match_step opts m (Tick dtMs rnd))) = 30000"
    unfolding s by (simp_all add: phase_of_def)
next
  assume h: "phase_of m = Regulation \<and> timeLeftMs m - dtMs \<le> 0 \<and> scoreLeft m \<noteq> scoreRight m"
  then have ne: "\<not> ended m" "\<not> overtime m"
    by (auto simp add: phase_of_def split: if_splits)
  with h show "phase_of (fst (match_step opts m (Tick dtMs rnd))) = Ended"
    by (simp add: update_def Let_def endMatch_def phase_of_def)
next
  assume h: "phase_of m = Overtime \<and> \<not> replay opts"
  then have ne: "\<not> ended m" "overtime m"
    by (auto simp add: phase_of_def split: if_splits)
  with h show "phase_of (fst (match_step opts m (FromWorker (GoalMsg scorer)))) = Ended"
    by (simp add: Let_def endMatch_def phase_of_def)
qed

theorem phase_transitions_witness:
  "phase_of late_tied = Regulation
   \<and> phase_of (fst (match_step rookie_options late_tied (Tick 16 0))) = Overtime
   \<and> timeLeftMs (fst (match_step rookie_options late_tied (Tick 16 0))) = 30000
   \<and> phase_of late_untied = Regulation
   \<and> phase_of (fst (match_step rookie_options late_untied (Tick 16 0))) = Ended
   \<and> phase_of in_overtime = Overtime
   \<and> phase_of (fst (match_step rookie_options in_overtime (FromWorker (GoalMsg ''left'')))) = Ended"
proof -
  have a: "phase_of late_tied = Regulation \<and> timeLeftMs late_tied - 16 \<le> 0
           \<and> scoreLeft late_tied = scoreRight late_tied"
    by (simp add: late_tied_def phase_of_def rookie_match_fields)
  have b: "phase_of late_untied = Regulation \<and> timeLeftMs late_untied - 16 \<le> 0
           \<and> scoreLeft late_untied \<noteq> scoreRight late_untied"
    by (simp add: late_untied_def phase_of_def rookie_match_fields)
  have c: "phase_of in_overtime = Overtime \<and> \<not> replay rookie_options"
    by (simp add: in_overtime_def phase_of_def rookie_match_fields rookie_options_def)
  from a phase_transitions [of late_tied 16 rookie_options 0]
  have 1: "phase_of (fst (match_step rookie_options late_tied (Tick 16 0))) = Overtime
           \<and> timeLeftMs (fst (match_step rookie_options late_tied (Tick 16 0))) = 30000"
    by blast
  from b phase_transitions [of late_untied 16 rookie_options 0]
  have 2: "phase_of (fst (match_step rookie_options late_untied (Tick 16 0))) = Ended"
    by blast
  from c phase_transitions [of in_overtime _ rookie_options _ "''left''"]
  have 3: "phase_of (fst (match_step rookie_options in_overtime (FromWorker (GoalMsg ''left'')))) = Ended"
    by blast
  from a b c 1 2 3 show ?thesis by blast
qed

lemma ai_decide_view:
  assumes "ai_view m2 = ai_view m"
  shows "ai_view (fst (ai_decide rnd m2)) = ai_view (fst (ai_decide rnd m))
       \<and> snd (ai_decide rnd m2) = snd (ai_decide rnd m)"
  using assms
  by (auto simp add: ai_view_def ai_decide_def Let_def split: option.splits)

lemma update_ai_view:
  assumes "ai_view m2 = ai_view m"
  shows "ai_view (fst (update_ai opts dtMs rnd m2)) = ai_view (fst (update_ai opts dtMs rnd m))
       \<and> snd (update_ai opts dtMs rnd m2) = snd (update_ai opts dtMs rnd m)"
proof -
  let ?d = "\<lambda>m. m\<lparr>aiDecisionCountdown := aiDecisionCountdown m - dtMs,
                   superCooldown2 := max 0 (superCooldown2 m - dtMs)\<rparr>"
  let ?r = "\<lambda>m. (?d m)\<lparr>aiDecisionCountdown := reactionTime (aiProfile (?d m)) * 1000\<rparr>"
  from assms have v1: "ai_view (?d m2) = ai_view (?d m)" and v2: "ai_view (?r m2) = ai_view (?r m)"
    by (simp_all add: ai_view_def)
  note d = ai_decide_view [OF v2, of rnd]
  from assms have c: "latestState m2 = latestState m" "aiDecisionCountdown m2 = aiDecisionCountdown m"
    by (simp_all add: ai_view_def)
  from d have dl: "aiLastInput (fst (ai_decide rnd (?r m2))) = aiLastInput (fst (ai_decide rnd (?r m)))"
    by (simp add: ai_view_def)
  from assms have l: "aiLastInput m2 = aiLastInput m"
    by (simp add: ai_view_def)
  show ?thesis
    using d dl l v1 c assms
    by (simp add: update_ai_def Let_def split_beta)
qed

lemma update_rest_view:
  "ai_view (fst (update_rest opts dtMs rnd m)) = ai_view (fst (update_ai opts dtMs rnd m))
   \<and> ai_commands (snd (update_rest opts dtMs rnd m)) = ai_commands (snd (update_ai opts dtMs rnd m))"
proof -
  let ?ts = "max 0 \<lceil>timeLeftMs m / 1000\<rceil>"
  let ?m1 = "m\<lparr>timerText := (?ts div 60, ?ts mod 60)\<rparr>"
  let ?m2 = "if \<not> replay opts
             then ?m1\<lparr>playerInput := (playerInput ?m1)\<lparr>super := False\<rparr>\<rparr> else ?m1"
  have v: "ai_view ?m2 = ai_view m"
    by (simp add: ai_view_def)
  note u = update_ai_view [OF v, of opts dtMs rnd]
  have "fst (update_rest opts dtMs rnd m) =
          (if \<not> replay opts
           then (fst (update_ai opts dtMs rnd ?m2))\<lparr>superCooldown1 :=
                   max 0 (superCooldown1 (fst (update_ai opts dtMs rnd ?m2)) - dtMs)\<rparr>
           else fst (update_ai opts dtMs rnd ?m2))"
    by (simp add: update_rest_def Let_def split_beta)
  then have a: "ai_view (fst (update_rest opts dtMs rnd m)) = ai_view (fst (update_ai opts dtMs rnd ?m2))"
    by (simp add: ai_view_def)
  have b: "ai_commands (snd (update_rest opts dtMs rnd m)) = ai_commands (snd (update_ai opts dtMs rnd ?m2))"
    by (simp add: update_rest_def Let_def split_beta)
  from a b u show ?thesis by simp
qed

lemma update_view:
  "(\<not> ended (fst (update opts dtMs rnd m)) \<longrightarrow>
      ai_view (fst (update opts dtMs rnd m)) = ai_view (fst (update_ai opts dtMs rnd m))
      \<and> ai_commands (snd (update opts dtMs rnd m)) = ai_commands (snd (update_ai opts dtMs rnd m)))
   \<and> (ended (fst (update opts dtMs rnd m)) \<and> \<not> ended m \<longrightarrow>
      ai_view (fst (update opts dtMs rnd m)) = ai_view m \<and> snd (update opts dtMs rnd m) = [])"
proof -
  let ?m1 = "m\<lparr>timeLeftMs := timeLeftMs m - dtMs\<rparr>"
  let ?m2 = "?m1\<lparr>overtime := True, timeLeftMs := 30 * 1000\<rparr>"
  have v1: "ai_view ?m1 = ai_view m" and v2: "ai_view ?m2 = ai_view m"
    by (simp_all add: ai_view_def)
  note r1 = update_rest_view [of opts dtMs rnd ?m1] update_ai_view [OF v1, of opts dtMs rnd]
  note r2 = update_rest_view [of opts dtMs rnd ?m2] update_ai_view [OF v2, of opts dtMs rnd]
  have e1: "ended (fst (update_rest opts dtMs rnd ?m1)) = ended m"
    using update_rest_frame [of opts dtMs rnd ?m1] by (cases "update_rest opts dtMs rnd ?m1") simp
  have e2: "ended (fst (update_rest opts dtMs rnd ?m2)) = ended m"
    using update_rest_frame [of opts dtMs rnd ?m2] by (cases "update_rest opts dtMs rnd ?m2") simp
  consider (ot) "\<not> overtime m \<and> timeLeftMs m - dtMs \<le> 0 \<and> scoreLeft m = scoreRight m"
    | (en) "timeLeftMs m - dtMs \<le> 0 \<and> (overtime m \<or> scoreLeft m \<noteq> scoreRight m)"
    | (go) "\<not> timeLeftMs m - dtMs \<le> 0"
    by blast
  then show ?thesis
  proof cases
    case ot
    then have "update opts dtMs rnd m = update_rest opts dtMs rnd ?m2"
      by (simp add: update_def Let_def)
    with r2 e2 show ?thesis by simp
  next
    case en
    then have "update opts dtMs rnd m = (endMatch ?m1, [])"
      by (auto simp add: update_def Let_def)
    then show ?thesis by (simp add: endMatch_def ai_view_def)
  next
    case go
    then have "update opts dtMs rnd m = update_rest opts dtMs rnd ?m1"
      by (simp add: update_def Let_def)
    with r1 e1 show ?thesis by simp
  qed
qed


lemma ai_commands_append: "ai_commands (xs @ ys) = ai_commands xs @ ai_commands ys"
  by (induction xs rule: ai_commands.induct) simp_all

lemma update_ai_decision:
  assumes "\<not> replay opts" "ai opts" "latestState m \<noteq> None"
      and "aiDecisionCountdown m - dtMs \<le> 0"
  shows "aiDecisionCountdown (fst (update_ai opts dtMs rnd m)) = reactionTime (aiProfile m) * 1000
       \<and> aiProfile (fst (update_ai opts dtMs rnd m)) = aiProfile m
       \<and> ai_commands (snd (update_ai opts dtMs rnd m)) = [aiLastInput (fst (update_ai opts dtMs rnd m))]"
proof -
  let ?r = "m\<lparr>aiDecisionCountdown := aiDecisionCountdown m - dtMs,
               superCooldown2 := max 0 (superCooldown2 m - dtMs),
               aiDecisionCountdown := reactionTime (aiProfile m) * 1000\<rparr>"
  obtain m2 msgs where d: "ai_decide rnd ?r = (m2, msgs)"
    by (cases "ai_decide rnd ?r")
  from assms d have "update_ai opts dtMs rnd m = (m2, msgs @ [InputMsg ''2'' (aiLastInput m2)])"
    by (simp add: update_ai_def Let_def)
  moreover have "ai_commands (msgs @ [InputMsg ''2'' (aiLastInput m2)]) = [aiLastInput m2]"
    using ai_decide_frame [OF d] by (simp add: ai_commands_append)
  ultimately show ?thesis
    using ai_decide_frame [OF d] by simp
qed


lemma update_ai_hold:
  assumes "0 < aiDecisionCountdown m - dtMs"
  shows "aiLastInput (fst (update_ai opts dtMs rnd m)) = aiLastInput m
       \<and> aiProfile (fst (update_ai opts dtMs rnd m)) = aiProfile m
       \<and> (aiDecisionCountdown (fst (update_ai opts dtMs rnd m)) = aiDecisionCountdown m - dtMs
          \<or> aiDecisionCountdown (fst (update_ai opts dtMs rnd m)) = aiDecisionCountdown m)
       \<and> (\<forall>c \<in> set (ai_commands (snd (update_ai opts dtMs rnd m))). c = aiLastInput m)"
  using assms
  by (simp add: update_ai_def Let_def)

lemma update_ai_exclusive:
  assumes "\<not> (left (aiLastInput m) \<and> right (aiLastInput m))"
  shows "\<not> (left (aiLastInput (fst (update_ai opts dtMs rnd m)))
            \<and> right (aiLastInput (fst (update_ai opts dtMs rnd m))))
       \<and> (\<forall>c \<in> set (ai_commands (snd (update_ai opts dtMs rnd m))). \<not> (left c \<and> right c))"
proof -
  have d: "\<And>m0. \<not> (left (aiLastInput m0) \<and> right (aiLastInput m0)) \<Longrightarrow>
             \<not> (left (aiLastInput (fst (ai_decide rnd m0))) \<and> right (aiLastInput (fst (ai_decide rnd m0))))
             \<and> ai_commands (snd (ai_decide rnd m0)) = []"
    by (auto simp add: ai_decide_def Let_def split: option.splits)
  let ?r = "m\<lparr>aiDecisionCountdown := aiDecisionCountdown m - dtMs,
               superCooldown2 := max 0 (superCooldown2 m - dtMs),
               aiDecisionCountdown := reactionTime (aiProfile m) * 1000\<rparr>"
  from assms have "\<not> (left (aiLastInput ?r) \<and> right (aiLastInput ?r))" by simp
  note dr = d [OF this]
  show ?thesis
    using assms dr
    by (simp add: update_ai_def Let_def split_beta ai_commands_append)
qed

lemma match_step_hold:
  assumes "0 \<le> tick_ms ev" "tick_ms ev < aiDecisionCountdown m"
  shows "aiLastInput (fst (match_step opts m ev)) = aiLastInput m
       \<and> aiProfile (fst (match_step opts m ev)) = aiProfile m
       \<and> aiDecisionCountdown m - tick_ms ev \<le> aiDecisionCountdown (fst (match_step opts m ev))
       \<and> (\<forall>c \<in> set (ai_commands (snd (match_step opts m ev))). c = aiLastInput m)"
proof (cases ev)
  case (FromWorker msg)
  then show ?thesis
    by (cases msg) (simp_all add: Let_def endMatch_def)
next
  case (Tick dtMs rnd)
  with assms have d: "0 \<le> dtMs" "0 < aiDecisionCountdown m - dtMs" by simp_all
  show ?thesis
  proof (cases "ended m")
    case True
    with Tick d show ?thesis by simp
  next
    case False
    note v = update_view [of opts dtMs rnd m]
    note h = update_ai_hold [OF d(2), of opts rnd]
    show ?thesis
    proof (cases "ended (fst (update opts dtMs rnd m))")
      case True
      with v False have "ai_view (fst (update opts dtMs rnd m)) = ai_view m"
        and "snd (update opts dtMs rnd m) = []" by simp_all
      with Tick False d show ?thesis by (simp add: ai_view_def)
    next
      case go: False
      with v have "ai_view (fst (update opts dtMs rnd m)) = ai_view (fst (update_ai opts dtMs rnd m))"
        and "ai_commands (snd (update opts dtMs rnd m)) = ai_commands (snd (update_ai opts dtMs rnd m))"
        by simp_all
      with Tick False d h show ?thesis by (auto simp add: ai_view_def)
    qed
  qed
qed

lemma match_run_hold:
  assumes "\<forall>ev \<in> set evs. 0 \<le> tick_ms ev"
      and "sum_list (map tick_ms evs) < aiDecisionCountdown m"
  shows "aiLastInput (fst (match_run opts m evs)) = aiLastInput m
       \<and> (\<forall>out \<in> set (snd (match_run opts m evs)). \<forall>c \<in> set (ai_commands out). c = aiLastInput m)"
  using assms
proof (induction evs arbitrary: m)
  case Nil
  then show ?case by simp
next
  case (Cons ev evs)
  let ?m1 = "fst (match_step opts m ev)"
  from Cons.prems have nn: "0 \<le> tick_ms ev" and rest: "\<forall>e \<in> set evs. 0 \<le> tick_ms e"
    by simp_all
  from rest have "0 \<le> sum_list (map tick_ms evs)"
    by (intro sum_list_nonneg) auto
  with Cons.prems(2) have lt: "tick_ms ev < aiDecisionCountdown m" by simp
  note s = match_step_hold [OF nn lt, of opts]
  from s Cons.prems(2) have "sum_list (map tick_ms evs) < aiDecisionCountdown ?m1" by simp
  from Cons.IH [OF rest this] s show ?case
    by (simp add: split_beta Let_def)
qed


lemma match_step_exclusive:
  assumes "\<not> (left (aiLastInput m) \<and> right (aiLastInput m))"
  shows "\<not> (left (aiLastInput (fst (match_step opts m ev)))
            \<and> right (aiLastInput (fst (match_step opts m ev))))
       \<and> (\<forall>c \<in> set (ai_commands (snd (match_step opts m ev))). \<not> (left c \<and> right c))"
proof (cases ev)
  case (FromWorker msg)
  with assms show ?thesis
    by (cases msg) (simp_all add: Let_def endMatch_def)
next
  case (Tick dtMs rnd)
  show ?thesis
  proof (cases "ended m")
    case True
    with Tick assms show ?thesis by simp
  next
    case False
    note v = update_view [of opts dtMs rnd m]
    note h = update_ai_exclusive [OF assms, of opts dtMs rnd]
    show ?thesis
    proof (cases "ended (fst (update opts dtMs rnd m))")
      case True
      with v False have "ai_view (fst (update opts dtMs rnd m)) = ai_view m"
        and "snd (update opts dtMs rnd m) = []" by simp_all
      with Tick False assms show ?thesis by (simp add: ai_view_def)
    next
      case go: False
      with v have "ai_view (fst (update opts dtMs rnd m)) = ai_view (fst (update_ai opts dtMs rnd m))"
        and "ai_commands (snd (update opts dtMs rnd m)) = ai_commands (snd (update_ai opts dtMs rnd m))"
        by simp_all
      with Tick False h show ?thesis by (simp add: ai_view_def)
    qed
  qed
qed

lemma match_run_exclusive:
  assumes "\<not> (left (aiLastInput m) \<and> right (aiLastInput m))"
  shows "\<not> (left (aiLastInput (fst (match_run opts m evs)))
            \<and> right (aiLastInput (fst (match_run opts m evs))))
       \<and> (\<forall>out \<in> set (snd (match_run opts m evs)). \<forall>c \<in> set (ai_commands out). \<not> (left c \<and> right c))"
  using assms
proof (induction evs arbitrary: m)
  case Nil
  then show ?case by simp
next
  case (Cons ev evs)
  note s = match_step_exclusive [OF Cons.prems, of opts ev]
  then have "\<not> (left (aiLastInput (fst (match_step opts m ev)))
                \<and> right (aiLastInput (fst (match_step opts m ev))))" by simp
  from Cons.IH [OF this] s show ?case
    by (simp add: split_beta Let_def)
qed

text \<open>
  C10. Along every run of a match from its start, the command held for the AI and every
  command posted for player 2 never have \<open>left\<close> and \<open>right\<close> both set. A decision sets
  \<open>left\<close> only when the target lies strictly left of the AI body and \<open>right\<close> only when
  it lies strictly right of it.
\<close>

theorem ai_directions_exclusive:
  "\<not> (left (aiLastInput (fst (match_run opts (startMatch opts lvl) evs)))
       \<and> right (aiLastInput (fst (match_run opts (startMatch opts lvl) evs))))
   \<and> (\<forall>out \<in> set (snd (match_run opts (startMatch opts lvl) evs)).
        \<forall>c \<in> set (ai_commands out). \<not> (left c \<and> right c))
   \<and> (latestState m = Some st \<and> st ''ball'' = Some bl \<and> st ''2'' = Some aiBody \<longrightarrow>
        (left (aiLastInput (fst (ai_decide rnd m))) \<longrightarrow> targetX (aiProfile m) bl rnd < e_x aiBody)
        \<and> (right (aiLastInput (fst (ai_decide rnd m))) \<longrightarrow> targetX (aiProfile m) bl rnd > e_x aiBody))"
proof -
  have i: "\<not> (left (aiLastInput (startMatch opts lvl)) \<and> right (aiLastInput (startMatch opts lvl)))"
    by (simp add: startMatch_def Let_def no_input_def)
  have d: "latestState m = Some st \<and> st ''ball'' = Some bl \<and> st ''2'' = Some aiBody \<longrightarrow>
        (left (aiLastInput (fst (ai_decide rnd m))) \<longrightarrow> targetX (aiProfile m) bl rnd < e_x aiBody)
        \<and> (right (aiLastInput (fst (ai_decide rnd m))) \<longrightarrow> targetX (aiProfile m) bl rnd > e_x aiBody)"
    by (simp add: ai_decide_def Let_def)
  from match_run_exclusive [OF i, of opts evs] d show ?thesis by blast
qed

theorem ai_directions_exclusive_witness:
  "\<not> (left (aiLastInput (fst (match_run rookie_options rookie_match
                                [FromWorker (StateMsg (build_snapshot airborne_world)), Tick 16 (1 / 2)])))
       \<and> right (aiLastInput (fst (match_run rookie_options rookie_match
                                [FromWorker (StateMsg (build_snapshot airborne_world)), Tick 16 (1 / 2)]))))
   \<and> left (aiLastInput (fst (ai_decide (1 / 2) seen_match)))
   \<and> targetX (aiProfile seen_match) (entry_of (ball airborne_world)) (1 / 2)
       < e_x (entry_of (player2 airborne_world))"
proof -
  have l: "left (aiLastInput (fst (ai_decide (1 / 2) seen_match)))"
    by (simp add: ai_decide_def seen_match_fields(3) airborne_entries rookie_target Let_def)
  have h: "latestState seen_match = Some (build_snapshot airborne_world)
           \<and> build_snapshot airborne_world ''ball'' = Some (entry_of (ball airborne_world))
           \<and> build_snapshot airborne_world ''2'' = Some (entry_of (player2 airborne_world))"
    by (simp add: seen_match_fields airborne_entries)
  from l h ai_directions_exclusive [of rookie_options "''Rookie''"
      "[FromWorker (StateMsg (build_snapshot airborne_world)), Tick 16 (1 / 2)]"
      seen_match "build_snapshot airborne_world" "entry_of (ball airborne_world)"
      "entry_of (player2 airborne_world)" "1 / 2"]
  show ?thesis unfolding rookie_match_def by blast
qed

lemma update_time_goes_on:
  assumes "0 < timeLeftMs m - dtMs"
  shows "timeLeftMs (fst (update opts dtMs rnd m)) = timeLeftMs m - dtMs"
proof -
  let ?m1 = "m\<lparr>timeLeftMs := timeLeftMs m - dtMs\<rparr>"
  from assms have "update opts dtMs rnd m = update_rest opts dtMs rnd ?m1"
    by (simp add: update_def Let_def)
  moreover have "timeLeftMs (fst (update_rest opts dtMs rnd ?m1)) = timeLeftMs m - dtMs"
    using update_rest_frame [of opts dtMs rnd ?m1] by (cases "update_rest opts dtMs rnd ?m1") simp
  ultimately show ?thesis by simp
qed

lemma update_ai_resend:
  assumes "\<not> replay opts" and "ai opts" and "latestState m \<noteq> None"
      and "0 < aiDecisionCountdown m - dtMs"
  shows "ai_commands (snd (update_ai opts dtMs rnd m)) = [aiLastInput m]"
  using assms
  by (simp add: update_ai_def Let_def)

lemma update_latest:
  assumes "\<not> ended m"
  shows "latestState (fst (update opts dtMs rnd m)) = latestState m"
proof (cases "ended (fst (update opts dtMs rnd m))")
  case True
  with assms update_view [of opts dtMs rnd m]
  have "ai_view (fst (update opts dtMs rnd m)) = ai_view m" by simp
  then show ?thesis by (simp add: ai_view_def)
next
  case False
  with update_view [of opts dtMs rnd m]
  have "ai_view (fst (update opts dtMs rnd m)) = ai_view (fst (update_ai opts dtMs rnd m))"
    by simp
  moreover have "latestState (fst (update_ai opts dtMs rnd m)) = latestState m"
    using update_ai_frame [of opts dtMs rnd m] by (cases "update_ai opts dtMs rnd m") simp
  ultimately show ?thesis by (simp add: ai_view_def)
qed

lemma match_step_latest:
  assumes "latestState m \<noteq> None"
  shows "latestState (fst (match_step opts m ev)) \<noteq> None"
proof (cases ev)
  case (FromWorker msg)
  with assms show ?thesis
    by (cases msg) (simp_all add: Let_def endMatch_def)
next
  case (Tick dtMs rnd)
  with assms update_latest [of m opts dtMs rnd] show ?thesis
    by (cases "ended m") simp_all
qed

lemma match_run_hold_state:
  assumes "\<forall>ev \<in> set evs. 0 \<le> tick_ms ev"
      and "sum_list (map tick_ms evs) < aiDecisionCountdown m"
      and "latestState m \<noteq> None"
  shows "aiLastInput (fst (match_run opts m evs)) = aiLastInput m
       \<and> aiDecisionCountdown m - sum_list (map tick_ms evs)
           \<le> aiDecisionCountdown (fst (match_run opts m evs))
       \<and> latestState (fst (match_run opts m evs)) \<noteq> None"
  using assms
proof (induction evs arbitrary: m)
  case Nil
  then show ?case by simp
next
  case (Cons ev evs)
  let ?m1 = "fst (match_step opts m ev)"
  from Cons.prems have nn: "0 \<le> tick_ms ev" and rest: "\<forall>e \<in> set evs. 0 \<le> tick_ms e"
    by simp_all
  from rest have "0 \<le> sum_list (map tick_ms evs)"
    by (intro sum_list_nonneg) auto
  with Cons.prems(2) have lt: "tick_ms ev < aiDecisionCountdown m" by simp
  note s = match_step_hold [OF nn lt, of opts]
  from s Cons.prems(2) have c: "sum_list (map tick_ms evs) < aiDecisionCountdown ?m1" by simp
  note l = match_step_latest [OF Cons.prems(3), of opts ev]
  from Cons.IH [OF rest c l] s show ?case
    by (simp add: split_beta Let_def)
qed

lemma hold_tick_resends:
  assumes "\<not> replay opts" and "ai opts" and "latestState m \<noteq> None"
      and "0 < aiDecisionCountdown m - dtMs"
      and "\<not> ended (fst (match_step opts m (Tick dtMs rnd)))"
  shows "ai_commands (snd (match_step opts m (Tick dtMs rnd))) = [aiLastInput m]"
proof -
  from assms(5) have ne: "\<not> ended m" by (cases "ended m") simp_all
  then have s: "match_step opts m (Tick dtMs rnd) = update opts dtMs rnd m" by simp
  from assms(5) s update_view [of opts dtMs rnd m]
  have "ai_commands (snd (update opts dtMs rnd m)) = ai_commands (snd (update_ai opts dtMs rnd m))"
    by simp
  with update_ai_resend [OF assms(1) assms(2) assms(3) assms(4), of rnd] s
  show ?thesis by simp
qed

lemma match_run_ended:
  assumes "ended m"
  shows "ended (fst (match_run opts m evs))"
  using assms
proof (induction evs arbitrary: m)
  case Nil
  then show ?case by simp
next
  case (Cons ev evs)
  from Cons.prems have "fst (match_step opts m ev) = m"
    by (cases ev) simp_all
  with Cons.IH [OF Cons.prems] show ?case
    by (simp add: split_beta Let_def)
qed

lemma match_run_resends:
  assumes "\<not> replay opts" and "ai opts"
      and "\<forall>ev \<in> set evs. 0 \<le> tick_ms ev"
      and "sum_list (map tick_ms evs) < aiDecisionCountdown m"
      and "latestState m \<noteq> None"
      and "\<not> ended (fst (match_run opts m evs))"
  shows "map ai_commands (snd (match_run opts m evs))
           = map (\<lambda>ev. case ev of Tick dtMs rnd \<Rightarrow> [aiLastInput m] | FromWorker msg \<Rightarrow> []) evs"
  using assms(3-6)
proof (induction evs arbitrary: m)
  case Nil
  then show ?case by simp
next
  case (Cons ev evs)
  let ?m1 = "fst (match_step opts m ev)"
  from Cons.prems have nn: "0 \<le> tick_ms ev" and rest: "\<forall>e \<in> set evs. 0 \<le> tick_ms e"
    by simp_all
  from rest have "0 \<le> sum_list (map tick_ms evs)"
    by (intro sum_list_nonneg) auto
  with Cons.prems(2) have lt: "tick_ms ev < aiDecisionCountdown m" by simp
  note s = match_step_hold [OF nn lt, of opts]
  from s Cons.prems(2) have c: "sum_list (map tick_ms evs) < aiDecisionCountdown ?m1" by simp
  note l = match_step_latest [OF Cons.prems(3), of opts ev]
  from Cons.prems(4) have e: "\<not> ended (fst (match_run opts ?m1 evs))"
    by (simp add: split_beta Let_def)
  with match_run_ended [of ?m1 opts evs] have ne: "\<not> ended ?m1" by blast
  have h: "ai_commands (snd (match_step opts m ev))
             = (case ev of Tick dtMs rnd \<Rightarrow> [aiLastInput m] | FromWorker msg \<Rightarrow> [])"
  proof (cases ev)
    case (FromWorker msg)
    then show ?thesis by simp
  next
    case (Tick dtMs rnd)
    with lt have "0 < aiDecisionCountdown m - dtMs" by simp
    from hold_tick_resends [OF assms(1) assms(2) Cons.prems(3) this, of rnd] ne Tick
    show ?thesis by simp
  qed
  from s have eq: "aiLastInput ?m1 = aiLastInput m" by simp
  from Cons.IH [OF rest c l e]
  have "map ai_commands (snd (match_run opts ?m1 evs))
          = map (\<lambda>ev. case ev of Tick dtMs rnd \<Rightarrow> [aiLastInput m] | FromWorker msg \<Rightarrow> []) evs"
    unfolding eq .
  with h show ?case
    by (simp add: split_beta Let_def)
qed

text \<open>
  C6. A frame on which the countdown has run out makes a decision and posts its command.
  Whatever arrives afterwards (new snapshots, goals, frames with any random numbers), as
  long as the frames since the decision add up to less than \<open>reactionTime * 1000\<close> ms,
  the held command stays the one decided, and every frame after which the match goes on
  posts that command for player 2 again, exactly once: a frame posts no other command.
\<close>

theorem ai_command_held_between_decisions:
  assumes "\<not> replay opts" and "ai opts" and "latestState m \<noteq> None" and "\<not> ended m"
      and "aiDecisionCountdown m - dt0 \<le> 0"
      and "\<not> ended (fst (match_step opts m (Tick dt0 rnd0)))"
      and "\<forall>ev \<in> set evs. 0 \<le> tick_ms ev"
      and "sum_list (map tick_ms evs) < reactionTime (aiProfile m) * 1000"
  shows "ai_commands (snd (match_step opts m (Tick dt0 rnd0)))
           = [aiLastInput (fst (match_step opts m (Tick dt0 rnd0)))]
       \<and> aiLastInput (fst (match_run opts (fst (match_step opts m (Tick dt0 rnd0))) evs))
           = aiLastInput (fst (match_step opts m (Tick dt0 rnd0)))
       \<and> (\<forall>out \<in> set (snd (match_run opts (fst (match_step opts m (Tick dt0 rnd0))) evs)).
            \<forall>c \<in> set (ai_commands out). c = aiLastInput (fst (match_step opts m (Tick dt0 rnd0))))
       \<and> (\<forall>pre dtMs rnd post.
            evs = pre @ Tick dtMs rnd # post
            \<and> \<not> ended (fst (match_step opts
                           (fst (match_run opts (fst (match_step opts m (Tick dt0 rnd0))) pre))
                           (Tick dtMs rnd)))
            \<longrightarrow> ai_commands (snd (match_step opts
                           (fst (match_run opts (fst (match_step opts m (Tick dt0 rnd0))) pre))
                           (Tick dtMs rnd)))
                  = [aiLastInput (fst (match_step opts m (Tick dt0 rnd0)))])
       \<and> (\<not> ended (fst (match_run opts (fst (match_step opts m (Tick dt0 rnd0))) evs)) \<longrightarrow>
            map ai_commands (snd (match_run opts (fst (match_step opts m (Tick dt0 rnd0))) evs))
              = map (\<lambda>ev. case ev of
                             Tick dtMs rnd \<Rightarrow> [aiLastInput (fst (match_step opts m (Tick dt0 rnd0)))]
                           | FromWorker msg \<Rightarrow> []) evs)"
proof -
  let ?m1 = "fst (match_step opts m (Tick dt0 rnd0))"
  from assms(4) have s: "match_step opts m (Tick dt0 rnd0) = update opts dt0 rnd0 m" by simp
  from assms(6) s have go: "\<not> ended (fst (update opts dt0 rnd0 m))" by simp
  with update_view [of opts dt0 rnd0 m]
  have v: "ai_view (fst (update opts dt0 rnd0 m)) = ai_view (fst (update_ai opts dt0 rnd0 m))"
    and c: "ai_commands (snd (update opts dt0 rnd0 m)) = ai_commands (snd (update_ai opts dt0 rnd0 m))"
    by simp_all
  note d = update_ai_decision [OF assms(1) assms(2) assms(3) assms(5), of rnd0]
  from v d have cd: "aiDecisionCountdown ?m1 = reactionTime (aiProfile m) * 1000"
    and li: "aiLastInput ?m1 = aiLastInput (fst (update_ai opts dt0 rnd0 m))"
    unfolding s by (simp_all add: ai_view_def)
  from c d li have first: "ai_commands (snd (match_step opts m (Tick dt0 rnd0))) = [aiLastInput ?m1]"
    unfolding s by simp
  from assms(8) cd have lt: "sum_list (map tick_ms evs) < aiDecisionCountdown ?m1" by simp
  from update_latest [OF assms(4), of opts dt0 rnd0] assms(3) s
  have l1: "latestState ?m1 \<noteq> None" by simp
  have resend: "\<forall>pre dtMs rnd post.
            evs = pre @ Tick dtMs rnd # post
            \<and> \<not> ended (fst (match_step opts (fst (match_run opts ?m1 pre)) (Tick dtMs rnd)))
            \<longrightarrow> ai_commands (snd (match_step opts (fst (match_run opts ?m1 pre)) (Tick dtMs rnd)))
                  = [aiLastInput ?m1]"
  proof (intro allI impI)
    fix pre dtMs rnd post
    assume h: "evs = pre @ Tick dtMs rnd # post
               \<and> \<not> ended (fst (match_step opts (fst (match_run opts ?m1 pre)) (Tick dtMs rnd)))"
    let ?mp = "fst (match_run opts ?m1 pre)"
    from h assms(7) have npre: "\<forall>ev \<in> set pre. 0 \<le> tick_ms ev"
      and nd: "0 \<le> dtMs" and npost: "\<forall>ev \<in> set post. 0 \<le> tick_ms ev"
      by auto
    from npost have "0 \<le> sum_list (map tick_ms post)"
      by (intro sum_list_nonneg) auto
    with h lt have t: "sum_list (map tick_ms pre) + dtMs < aiDecisionCountdown ?m1"
      by simp
    with nd have "sum_list (map tick_ms pre) < aiDecisionCountdown ?m1" by simp
    from match_run_hold_state [OF npre this l1, of opts]
    have a: "aiLastInput ?mp = aiLastInput ?m1"
      and b: "aiDecisionCountdown ?m1 - sum_list (map tick_ms pre) \<le> aiDecisionCountdown ?mp"
      and l: "latestState ?mp \<noteq> None"
      by simp_all
    from b t have "0 < aiDecisionCountdown ?mp - dtMs" by simp
    from hold_tick_resends [OF assms(1) assms(2) l this] h a
    show "ai_commands (snd (match_step opts ?mp (Tick dtMs rnd))) = [aiLastInput ?m1]"
      by simp
  qed
  have whole: "\<not> ended (fst (match_run opts ?m1 evs)) \<longrightarrow>
            map ai_commands (snd (match_run opts ?m1 evs))
              = map (\<lambda>ev. case ev of Tick dtMs rnd \<Rightarrow> [aiLastInput ?m1] | FromWorker msg \<Rightarrow> []) evs"
    using match_run_resends [OF assms(1) assms(2) assms(7) lt l1] by blast
  from match_run_hold [OF assms(7) lt, of opts] first resend whole show ?thesis by blast
qed

theorem ai_command_held_between_decisions_witness:
  "aiLastInput
     (fst (match_run rookie_options (fst (match_step rookie_options seen_match (Tick 16 0.5)))
             [FromWorker (StateMsg (build_snapshot (kick_right airborne_world))),
              Tick 100 0.9, Tick 150 0.1]))
     = aiLastInput (fst (match_step rookie_options seen_match (Tick 16 0.5)))
   \<and> ai_commands (snd (match_step rookie_options seen_match (Tick 16 0.5)))
       = [aiLastInput (fst (match_step rookie_options seen_match (Tick 16 0.5)))]
   \<and> map ai_commands
         (snd (match_run rookie_options (fst (match_step rookie_options seen_match (Tick 16 0.5)))
                 [FromWorker (StateMsg (build_snapshot (kick_right airborne_world))),
                  Tick 100 0.9, Tick 150 0.1]))
       = [[],
          [aiLastInput (fst (match_step rookie_options seen_match (Tick 16 0.5)))],
          [aiLastInput (fst (match_step rookie_options seen_match (Tick 16 0.5)))]]"
proof -
  let ?e1 = "FromWorker (StateMsg (build_snapshot (kick_right airborne_world)))"
  let ?evs = "[?e1, Tick 100 0.9, Tick 150 0.1]"
  let ?m1 = "fst (match_step rookie_options seen_match (Tick 16 0.5))"
  let ?m2 = "fst (match_step rookie_options ?m1 ?e1)"
  let ?m3 = "fst (match_step rookie_options ?m2 (Tick 100 0.9))"
  let ?m4 = "fst (match_step rookie_options ?m3 (Tick 150 0.1))"
  have 1: "\<not> replay rookie_options" and 2: "ai rookie_options"
    by (simp_all add: rookie_options_def)
  have 3: "latestState seen_match \<noteq> None" and 4: "\<not> ended seen_match"
    and 5: "aiDecisionCountdown seen_match - 16 \<le> 0"
    by (simp_all add: seen_match_fields)
  have 6: "\<not> ended ?m1"
    using update_goes_on [of seen_match 16 rookie_options "0.5"]
    by (simp add: seen_match_fields)
  have t1: "timeLeftMs ?m1 = 89984"
    using update_time_goes_on [of seen_match 16 rookie_options "0.5"]
    by (simp add: seen_match_fields)
  from 6 1 have m2: "\<not> ended ?m2 \<and> timeLeftMs ?m2 = timeLeftMs ?m1"
    by simp
  with t1 have e3: "\<not> ended ?m3"
    using update_goes_on [of ?m2 100 rookie_options "0.9"] by simp
  from m2 t1 have t3: "timeLeftMs ?m3 = 89884"
    using update_time_goes_on [of ?m2 100 rookie_options "0.9"] by simp
  from e3 t3 have e4: "\<not> ended ?m4"
    using update_goes_on [of ?m3 150 rookie_options "0.1"] by simp
  have r: "fst (match_run rookie_options ?m1 ?evs) = ?m4"
    by (simp add: split_beta Let_def)
  have 7: "\<forall>ev \<in> set ?evs. 0 \<le> tick_ms ev"
    by simp
  have 8: "sum_list (map tick_ms ?evs) < reactionTime (aiProfile seen_match) * 1000"
    by (simp add: seen_match_fields)
  from e4 r have 9: "\<not> ended (fst (match_run rookie_options ?m1 ?evs))"
    by simp
  from ai_command_held_between_decisions [OF 1 2 3 4 5 6 7 8] 9
  have "aiLastInput (fst (match_run rookie_options ?m1 ?evs)) = aiLastInput ?m1
        \<and> ai_commands (snd (match_step rookie_options seen_match (Tick 16 0.5))) = [aiLastInput ?m1]
        \<and> map ai_commands (snd (match_run rookie_options ?m1 ?evs))
            = map (\<lambda>ev. case ev of Tick dtMs rnd \<Rightarrow> [aiLastInput ?m1] | FromWorker msg \<Rightarrow> []) ?evs"
    by blast
  then show ?thesis by simp
qed



text \<open>
  C9, as stated: a frame delta that would drive the remaining time below zero leaves it
  clamped at zero. It fails: with 10 ms left at 1:0, a frame of 50 ms ends the match with
  \<open>-40\<close> ms stored as the remaining time.
\<close>

theorem expiry_counterexample:
  "timeLeftMs (fst (match_step rookie_options late_untied (Tick 50 0))) = - 40
   \<and> phase_of (fst (match_step rookie_options late_untied (Tick 50 0))) = Ended"
  by (simp add: late_untied_def rookie_match_def startMatch_def Let_def update_def endMatch_def
      phase_of_def)

text \<open>
  C9, amended. The remaining time is not clamped. When a frame delta drives it to zero
  or below, the comparison \<open>\<le> 0\<close> is made on the decremented, possibly negative value
  and takes it as expired: a tied regulation goes to overtime with 30000 ms, and
  otherwise the match ends with the decremented value stored. Whenever the match goes on
  after a frame the remaining time is positive, and the timer shows the clamped
  \<open>max 0 (ceil (t / 1000))\<close> seconds.
\<close>

theorem expiry_not_clamped:
  assumes "\<not> ended m"
  shows "(timeLeftMs m - dtMs \<le> 0 \<and> \<not> overtime m \<and> scoreLeft m = scoreRight m \<longrightarrow>
            phase_of (fst (match_step opts m (Tick dtMs rnd))) = Overtime
            \<and> timeLeftMs (fst (match_step opts m (Tick dtMs rnd))) = 30000)
       \<and> (timeLeftMs m - dtMs \<le> 0 \<and> (overtime m \<or> scoreLeft m \<noteq> scoreRight m) \<longrightarrow>
            phase_of (fst (match_step opts m (Tick dtMs rnd))) = Ended
            \<and> timeLeftMs (fst (match_step opts m (Tick dtMs rnd))) = timeLeftMs m - dtMs)
       \<and> (\<not> ended (fst (match_step opts m (Tick dtMs rnd))) \<longrightarrow>
            0 < timeLeftMs (fst (match_step opts m (Tick dtMs rnd)))
            \<and> timerText (fst (match_step opts m (Tick dtMs rnd)))
                = (max 0 \<lceil>timeLeftMs (fst (match_step opts m (Tick dtMs rnd))) / 1000\<rceil> div 60,
                   max 0 \<lceil>timeLeftMs (fst (match_step opts m (Tick dtMs rnd))) / 1000\<rceil> mod 60))"
proof -
  let ?m1 = "m\<lparr>timeLeftMs := timeLeftMs m - dtMs\<rparr>"
  let ?m2 = "?m1\<lparr>overtime := True, timeLeftMs := 30 * 1000\<rparr>"
  from assms have s: "match_step opts m (Tick dtMs rnd) = update opts dtMs rnd m" by simp
  have f1: "timeLeftMs (fst (update_rest opts dtMs rnd ?m1)) = timeLeftMs m - dtMs
            \<and> overtime (fst (update_rest opts dtMs rnd ?m1)) = overtime m
            \<and> ended (fst (update_rest opts dtMs rnd ?m1)) = ended m
            \<and> timerText (fst (update_rest opts dtMs rnd ?m1))
                = (max 0 \<lceil>(timeLeftMs m - dtMs) / 1000\<rceil> div 60, max 0 \<lceil>(timeLeftMs m - dtMs) / 1000\<rceil> mod 60)"
    using update_rest_frame [of opts dtMs rnd ?m1] by (cases "update_rest opts dtMs rnd ?m1") simp
  have f2: "timeLeftMs (fst (update_rest opts dtMs rnd ?m2)) = 30000
            \<and> overtime (fst (update_rest opts dtMs rnd ?m2))
            \<and> ended (fst (update_rest opts dtMs rnd ?m2)) = ended m
            \<and> timerText (fst (update_rest opts dtMs rnd ?m2))
                = (max 0 \<lceil>30000 / 1000 :: real\<rceil> div 60, max 0 \<lceil>30000 / 1000 :: real\<rceil> mod 60)"
    using update_rest_frame [of opts dtMs rnd ?m2] by (cases "update_rest opts dtMs rnd ?m2") simp
  consider (ot) "\<not> overtime m \<and> timeLeftMs m - dtMs \<le> 0 \<and> scoreLeft m = scoreRight m"
    | (en) "timeLeftMs m - dtMs \<le> 0 \<and> (overtime m \<or> scoreLeft m \<noteq> scoreRight m)"
    | (go) "\<not> timeLeftMs m - dtMs \<le> 0"
    by blast
  then show ?thesis
  proof cases
    case ot
    then have "update opts dtMs rnd m = update_rest opts dtMs rnd ?m2"
      by (simp add: update_def Let_def)
    with f2 ot assms show ?thesis unfolding s by (simp add: phase_of_def)
  next
    case en
    then have "update opts dtMs rnd m = (endMatch ?m1, [])"
      by (auto simp add: update_def Let_def)
    with en show ?thesis unfolding s by (auto simp add: endMatch_def phase_of_def)
  next
    case go
    then have "update opts dtMs rnd m = update_rest opts dtMs rnd ?m1"
      by (simp add: update_def Let_def)
    with f1 go assms show ?thesis unfolding s by simp
  qed
qed

theorem expiry_not_clamped_witness:
  "\<not> ended late_tied
   \<and> timeLeftMs (fst (match_step rookie_options late_tied (Tick 50 0))) = 30000
   \<and> \<not> ended in_overtime
   \<and> timeLeftMs (fst (match_step rookie_options in_overtime (Tick 26000 0))) = - 1000
   \<and> phase_of (fst (match_step rookie_options in_overtime (Tick 26000 0))) = Ended"
proof -
  have a: "\<not> ended late_tied"
    by (simp add: late_tied_def rookie_match_fields)
  have a': "timeLeftMs late_tied - 50 \<le> 0 \<and> \<not> overtime late_tied
            \<and> scoreLeft late_tied = scoreRight late_tied"
    by (simp add: late_tied_def rookie_match_fields)
  have b: "\<not> ended in_overtime"
    by (simp add: in_overtime_def rookie_match_fields)
  have b': "timeLeftMs in_overtime - 26000 \<le> 0
            \<and> (overtime in_overtime \<or> scoreLeft in_overtime \<noteq> scoreRight in_overtime)"
    by (simp add: in_overtime_def rookie_match_fields)
  have t: "timeLeftMs in_overtime - 26000 = - 1000"
    by (simp add: in_overtime_def)
  from a' expiry_not_clamped [OF a, of 50 rookie_options 0]
  have 1: "timeLeftMs (fst (match_step rookie_options late_tied (Tick 50 0))) = 30000"
    by blast
  from b' expiry_not_clamped [OF b, of 26000 rookie_options 0]
  have 2: "phase_of (fst (match_step rookie_options in_overtime (Tick 26000 0))) = Ended
           \<and> timeLeftMs (fst (match_step rookie_options in_overtime (Tick 26000 0)))
               = timeLeftMs in_overtime - 26000"
    by blast
  from a b 1 2 t show ?thesis by simp
qed

section \<open>Properties of replay playback\<close>





















section \<open>Properties of the replay store\<close>

text \<open>
  C4, as stated: a record that fails to parse is dropped alone and the other records are
  still loaded. It fails: the collection of one well-formed record loads with that
  record, and the same collection followed by a record that is cut off loads as the
  empty collection. An entry that parses is kept whatever it is: nothing is dropped
  entry by entry.
\<close>

theorem load_drops_whole_collection:
  "JSON_parse stored_good = Inr (JArr [JObj [(''timestamp'', JNum 1), (''frames'', JArr [])]])
   \<and> loadReplays JSON_parse (Some stored_good)
       = JArr [JObj [(''timestamp'', JNum 1), (''frames'', JArr [])]]
   \<and> JSON_parse stored_damaged = Inl SyntaxError
   \<and> loadReplays JSON_parse (Some stored_damaged) = JArr []
   \<and> loadReplays JSON_parse (Some stored_odd)
       = JArr [JObj [(''timestamp'', JNum 1), (''frames'', JArr [])], JNum 5]"
  by code_simp

text \<open>
  C4, amended. The stored text is parsed as a whole. With nothing stored the collection
  is empty; when the text parses, the collection is the parsed value, every record of
  it; when any part of the text fails to parse, the collection is empty and no record is
  loaded. The load itself never fails.
\<close>

theorem load_all_or_nothing:
  "((stored = None \<or> stored = Some []) \<longrightarrow> loadReplays parse stored = JArr [])
   \<and> (stored = Some text \<and> text \<noteq> [] \<and> parse text = Inr v \<longrightarrow> loadReplays parse stored = v)
   \<and> (stored = Some text \<and> text \<noteq> [] \<and> parse text = Inl e \<longrightarrow>
        loadReplays parse stored = JArr [])"
  by (auto simp add: loadReplays_def loadReplays_try_def)

theorem load_all_or_nothing_witness:
  "loadReplays JSON_parse (Some stored_good)
     = JArr [JObj [(''timestamp'', JNum 1), (''frames'', JArr [])]]
   \<and> loadReplays JSON_parse (Some stored_damaged) = JArr []
   \<and> loadReplays JSON_parse None = JArr []"
proof -
  have g: "stored_good \<noteq> []
           \<and> JSON_parse stored_good = Inr (JArr [JObj [(''timestamp'', JNum 1), (''frames'', JArr [])]])"
    by code_simp
  have d: "stored_damaged \<noteq> [] \<and> JSON_parse stored_damaged = Inl SyntaxError"
    by code_simp
  from g load_all_or_nothing [of "Some stored_good" JSON_parse stored_good]
  have 1: "loadReplays JSON_parse (Some stored_good)
             = JArr [JObj [(''timestamp'', JNum 1), (''frames'', JArr [])]]"
    by blast
  from d load_all_or_nothing [of "Some stored_damaged" JSON_parse stored_damaged _ SyntaxError]
  have 2: "loadReplays JSON_parse (Some stored_damaged) = JArr []"
    by blast
  from load_all_or_nothing [of None JSON_parse]
  have 3: "loadReplays JSON_parse None = JArr []"
    by blast
  from 1 2 3 show ?thesis by blast
qed

end
